theory Spec2Isabelle
  imports Complex_Main "HOL-Library.AList"
begin

section \<open>Conventions of the embedding\<close>

text \<open>
  The two Python modules \<^verbatim>\<open>src/guard_rail.py\<close> and \<^verbatim>\<open>src/solver_bridge.py\<close> are embedded
  function by function.

  \<^item> The guard rail only compares the numbers it is given. Its values are of the type
    \<open>pyfloat\<close>: a real number, an infinity or NaN, compared as Python compares floats (and
    ints with floats): exactly, and with every comparison against NaN false.
  \<^item> The solver bridge computes with its numbers. There a Python \<^verbatim>\<open>float\<close> is a
    \<^typ>\<open>real\<close>: its arithmetic is exact, and NaN, the infinities and the rounding of IEEE
    arithmetic are outside the model. A statement about the solver bridge is a statement
    about the algorithm in exact arithmetic.
  \<^item> A Python \<^verbatim>\<open>int\<close> is an \<^typ>\<open>int\<close>.
  \<^item> A Python \<^verbatim>\<open>dict\<close> whose insertion order or size is observed is an association list
    with the keys in insertion order (\<^const>\<open>map_of\<close> reads it, \<^const>\<open>AList.update\<close> writes
    it); a \<^verbatim>\<open>dict\<close> that is only read by key is a map.
  \<^item> Rendering a float inside an f-string is the parameter \<open>fmt\<close> of the functions that
    build messages; every theorem holds for every rendering.
  \<^item> Mutation of \<^verbatim>\<open>self\<close> is state passing: a method takes the object and returns it
    updated beside its result.
  \<^item> An exception that leaves a function is the \<open>Inl\<close> branch of its result.
  \<^item> Logging is not modelled.
\<close>

section \<open>guard\_rail.py\<close>

text \<open>
  The numbers the guard rail receives, and Python's \<^verbatim>\<open><\<close>, \<^verbatim>\<open>>\<close> and \<^verbatim>\<open><=\<close> on them.
\<close>

datatype pyfloat = Fin real | PosInf | NegInf | NaN

fun py_lt :: "pyfloat \<Rightarrow> pyfloat \<Rightarrow> bool" where
  "py_lt NaN b = False"
| "py_lt a NaN = False"
| "py_lt (Fin x) (Fin y) = (x < y)"
| "py_lt a NegInf = False"
| "py_lt NegInf b = True"
| "py_lt PosInf b = False"
| "py_lt a PosInf = True"

definition py_gt :: "pyfloat \<Rightarrow> pyfloat \<Rightarrow> bool" where
  "py_gt a b = py_lt b a"

definition py_le :: "pyfloat \<Rightarrow> pyfloat \<Rightarrow> bool" where
  "py_le a b = (py_lt a b \<or> (a = b \<and> a \<noteq> NaN))"

datatype ConstraintType = VOLTAGE | CURRENT | POWER | SOC | TEMPERATURE | FREQUENCY

record Constraint =
  name :: string
  ctype :: ConstraintType
  min_value :: pyfloat
  max_value :: pyfloat
  critical :: bool

text \<open>\<^verbatim>\<open>Constraint.validate\<close>: the pair of the verdict and the optional message.\<close>

definition validate :: "(pyfloat \<Rightarrow> string) \<Rightarrow> Constraint \<Rightarrow> pyfloat \<Rightarrow> bool \<times> string option" where
  "validate fmt c v =
     (if py_lt v (min_value c) then
        (False, Some (name c @ '' below minimum: '' @ fmt v @ '' < '' @ fmt (min_value c)))
      else if py_gt v (max_value c) then
        (False, Some (name c @ '' exceeds maximum: '' @ fmt v @ '' > '' @ fmt (max_value c)))
      else (True, None))"

text \<open>One entry of \<^verbatim>\<open>blocked_actions\<close>; the key \<^verbatim>\<open>'value'\<close> is the field \<open>blocked_value\<close>.\<close>

record BlockRecord =
  component :: string
  constraint :: string
  blocked_value :: pyfloat
  error :: "string option"

record GuardRail =
  constraints :: "(string \<times> Constraint list) list"
  violation_count :: int
  blocked_actions :: "BlockRecord list"

text \<open>\<^verbatim>\<open>self.constraints.get(component, [])\<close>\<close>

definition constraints_get :: "GuardRail \<Rightarrow> string \<Rightarrow> Constraint list" where
  "constraints_get g ckey = (case map_of (constraints g) ckey of None \<Rightarrow> [] | Some cs \<Rightarrow> cs)"

text \<open>
  \<^verbatim>\<open>GuardRail.add_constraint\<close>: a new component gets an empty list first; the constraint is
  then appended to the component's list.
\<close>

definition add_constraint :: "GuardRail \<Rightarrow> string \<Rightarrow> Constraint \<Rightarrow> GuardRail" where
  "add_constraint g ckey c =
     (let d = (if map_of (constraints g) ckey = None
               then AList.update ckey [] (constraints g) else constraints g);
          cs = (case map_of d ckey of None \<Rightarrow> [] | Some cs \<Rightarrow> cs)
      in g\<lparr>constraints := AList.update ckey (cs @ [c]) d\<rparr>)"

fun map_parameter :: "ConstraintType \<Rightarrow> string" where
  "map_parameter VOLTAGE = ''voltage''"
| "map_parameter CURRENT = ''current''"
| "map_parameter POWER = ''power''"
| "map_parameter SOC = ''soc''"
| "map_parameter TEMPERATURE = ''temperature''"
| "map_parameter FREQUENCY = ''frequency''"

text \<open>
  The body of the \<^verbatim>\<open>for constraint in self.constraints[component]\<close> loop of
  \<^verbatim>\<open>validate_action\<close>, on the pair of the local list \<^verbatim>\<open>violations\<close> and the object.
\<close>

definition validate_step ::
  "(pyfloat \<Rightarrow> string) \<Rightarrow> string \<Rightarrow> (string \<rightharpoonup> pyfloat) \<Rightarrow> Constraint
     \<Rightarrow> string option list \<times> GuardRail \<Rightarrow> string option list \<times> GuardRail" where
  "validate_step fmt ckey parameters c st =
     (case parameters (map_parameter (ctype c)) of
        None \<Rightarrow> st
      | Some v \<Rightarrow>
          (let (is_valid, error_msg) = validate fmt c v; (vs, g) = st in
           if is_valid then st
           else if critical c then
             (vs @ [error_msg],
              g\<lparr>violation_count := violation_count g + 1,
                blocked_actions := blocked_actions g @
                  [\<lparr>component = ckey, constraint = name c, blocked_value = v,
                    error = error_msg\<rparr>]\<rparr>)
           else (vs @ [error_msg], g)))"

definition validate_action ::
  "(pyfloat \<Rightarrow> string) \<Rightarrow> GuardRail \<Rightarrow> string \<Rightarrow> (string \<rightharpoonup> pyfloat)
     \<Rightarrow> (bool \<times> string option list) \<times> GuardRail" where
  "validate_action fmt g ckey parameters =
     (case map_of (constraints g) ckey of
        None \<Rightarrow> ((True, []), g)
      | Some cs \<Rightarrow>
          (let (vs, g') = fold (validate_step fmt ckey parameters) cs ([], g)
           in ((length vs = 0, vs), g')))"

text \<open>\<^verbatim>\<open>GuardRail._initialize_constraints\<close> and \<^verbatim>\<open>GuardRail.__init__\<close>\<close>

definition initialize_constraints :: "GuardRail \<Rightarrow> GuardRail" where
  "initialize_constraints g0 =
     (let g1 = add_constraint g0 ''battery''
                 \<lparr>name = ''Battery SOC'', ctype = SOC, min_value = Fin 10, max_value = Fin 95,
                  critical = True\<rparr>;
          g2 = add_constraint g1 ''battery''
                 \<lparr>name = ''Battery Current'', ctype = CURRENT, min_value = Fin (- 200),
                  max_value = Fin 200, critical = True\<rparr>;
          g3 = add_constraint g2 ''grid''
                 \<lparr>name = ''Grid Voltage'', ctype = VOLTAGE, min_value = Fin 380, max_value = Fin 420,
                  critical = True\<rparr>;
          g4 = add_constraint g3 ''grid''
                 \<lparr>name = ''Grid Frequency'', ctype = FREQUENCY, min_value = Fin 49.5,
                  max_value = Fin 50.5, critical = True\<rparr>;
          g5 = add_constraint g4 ''solar''
                 \<lparr>name = ''PV Temperature'', ctype = TEMPERATURE, min_value = Fin (- 20),
                  max_value = Fin 85, critical = False\<rparr>
      in g5)"

definition GuardRail_init :: GuardRail where
  "GuardRail_init =
     initialize_constraints \<lparr>constraints = [], violation_count = 0, blocked_actions = []\<rparr>"

text \<open>\<^verbatim>\<open>GuardRail.check_system_health\<close>: the report, and the body of its loop over
  \<^verbatim>\<open>system_state.items()\<close>.\<close>

record ComponentReport =
  valid :: bool
  violations :: "string option list"

record HealthReport =
  healthy :: bool
  components :: "(string \<times> ComponentReport) list"
  critical_violations :: int
  warnings :: int

text \<open>
  The generator expression of \<^verbatim>\<open>check_system_health\<close> that counts the critical constraints
  of a component failing at \<^verbatim>\<open>state.get(key, 0)\<close>: an absent parameter is read as 0.
\<close>

definition critical_tally ::
  "(pyfloat \<Rightarrow> string) \<Rightarrow> GuardRail \<Rightarrow> string \<Rightarrow> (string \<rightharpoonup> pyfloat) \<Rightarrow> int" where
  "critical_tally fmt g ckey state =
     int (length (filter
       (\<lambda>c. critical c \<and>
          \<not> fst (validate fmt c
              (case state (map_parameter (ctype c)) of None \<Rightarrow> Fin 0 | Some v \<Rightarrow> v)))
       (constraints_get g ckey)))"

definition health_step ::
  "(pyfloat \<Rightarrow> string) \<Rightarrow> string \<times> (string \<rightharpoonup> pyfloat) \<Rightarrow> HealthReport \<times> GuardRail
     \<Rightarrow> HealthReport \<times> GuardRail" where
  "health_step fmt item st =
     (let (ckey, state) = item; (report, g) = st;
          ((is_valid, vs), g') = validate_action fmt g ckey state;
          report1 = report\<lparr>components :=
                      AList.update ckey \<lparr>valid = is_valid, violations = vs\<rparr> (components report)\<rparr>
      in if is_valid then (report1, g')
         else
           (let crit = critical_tally fmt g' ckey state
            in (report1\<lparr>healthy := False,
                  critical_violations := critical_violations report1 + crit,
                  warnings := warnings report1 + (int (length vs) - crit)\<rparr>, g')))"

definition check_system_health ::
  "(pyfloat \<Rightarrow> string) \<Rightarrow> GuardRail \<Rightarrow> (string \<times> (string \<rightharpoonup> pyfloat)) list
     \<Rightarrow> HealthReport \<times> GuardRail" where
  "check_system_health fmt g system_state =
     fold (health_step fmt) system_state
       (\<lparr>healthy = True, components = [], critical_violations = 0, warnings = 0\<rparr>, g)"

text \<open>\<^verbatim>\<open>GuardRail.get_statistics\<close>\<close>

record Statistics =
  total_constraints :: int
  stats_violation_count :: int
  blocked_actions_count :: int
  components_monitored :: int
  recent_blocks :: "BlockRecord list"

definition get_statistics :: "GuardRail \<Rightarrow> Statistics" where
  "get_statistics g =
     \<lparr>total_constraints = sum_list (map (\<lambda>(k, cs). int (length cs)) (constraints g)),
      stats_violation_count = violation_count g,
      blocked_actions_count = int (length (blocked_actions g)),
      components_monitored = int (length (constraints g)),
      recent_blocks = drop (length (blocked_actions g) - 10) (blocked_actions g)\<rparr>"

text \<open>
  A client of one \<^verbatim>\<open>GuardRail\<close> object: the calls it can make that change or read the
  counters, and the object after a sequence of them.
\<close>

datatype GuardCall =
  AddConstraint string Constraint
| ValidateAction string "string \<rightharpoonup> pyfloat"
| CheckSystemHealth "(string \<times> (string \<rightharpoonup> pyfloat)) list"

fun run_call :: "(pyfloat \<Rightarrow> string) \<Rightarrow> GuardCall \<Rightarrow> GuardRail \<Rightarrow> GuardRail" where
  "run_call fmt (AddConstraint ckey c) g = add_constraint g ckey c"
| "run_call fmt (ValidateAction ckey parameters) g = snd (validate_action fmt g ckey parameters)"
| "run_call fmt (CheckSystemHealth system_state) g = snd (check_system_health fmt g system_state)"

subsection \<open>What one pass over a constraint contributes\<close>

text \<open>
  These two functions are not in the source: they name, for the statements below, what the
  loop of \<^verbatim>\<open>validate_action\<close> adds for one constraint: the messages (none when the
  parameter is absent or the value is within bounds) and the block records (only for a
  violated critical constraint).
\<close>

definition step_messages ::
  "(pyfloat \<Rightarrow> string) \<Rightarrow> (string \<rightharpoonup> pyfloat) \<Rightarrow> Constraint \<Rightarrow> string option list" where
  "step_messages fmt parameters c =
     (case parameters (map_parameter (ctype c)) of
        None \<Rightarrow> []
      | Some v \<Rightarrow> if fst (validate fmt c v) then [] else [snd (validate fmt c v)])"

definition step_blocks ::
  "(pyfloat \<Rightarrow> string) \<Rightarrow> string \<Rightarrow> (string \<rightharpoonup> pyfloat) \<Rightarrow> Constraint \<Rightarrow> BlockRecord list" where
  "step_blocks fmt ckey parameters c =
     (case parameters (map_parameter (ctype c)) of
        None \<Rightarrow> []
      | Some v \<Rightarrow>
          if fst (validate fmt c v) then []
          else if critical c then
            [\<lparr>component = ckey, constraint = name c, blocked_value = v,
              error = snd (validate fmt c v)\<rparr>]
          else [])"

section \<open>solver\_bridge.py\<close>

datatype SolverType = CVXPY | PYOMO | ORTOOLS | SIMPLE

record OptimizationResult =
  success :: bool
  objective_value :: real
  battery_schedule :: "real list"
  grid_schedule :: "real list"
  solve_time_ms :: real
  solver_used :: SolverType
  iterations :: int
  cost_savings_pct :: real

record SolverBridge =
  preferred_solver :: SolverType
  solve_count :: int
  total_solve_time :: real
  failed_solves :: int

text \<open>\<^verbatim>\<open>SolverBridge.__init__\<close>\<close>

definition SolverBridge_init :: "SolverType \<Rightarrow> SolverBridge" where
  "SolverBridge_init solver =
     \<lparr>preferred_solver = solver, solve_count = 0, total_solve_time = 0, failed_solves = 0\<rparr>"

text \<open>
  The exceptions the module can raise on lists of floats, floats and ints: reading a list
  past its end, and dividing by zero.
\<close>

datatype py_exception = IndexError | ZeroDivisionError

text \<open>\<^verbatim>\<open>xs[i]\<close> for an index \<open>i \<ge> 0\<close>, and \<^verbatim>\<open>a / b\<close>.\<close>

definition getitem :: "real list \<Rightarrow> nat \<Rightarrow> py_exception + real" where
  "getitem xs i = (if i < length xs then Inr (xs ! i) else Inl IndexError)"

definition truediv :: "real \<Rightarrow> real \<Rightarrow> py_exception + real" where
  "truediv a b = (if b = 0 then Inl ZeroDivisionError else Inr (a / b))"

text \<open>\<^verbatim>\<open>xs[:n]\<close>: a negative \<open>n\<close> counts from the end.\<close>

definition slice_to :: "real list \<Rightarrow> int \<Rightarrow> real list" where
  "slice_to xs n = (if 0 \<le> n then take (nat n) xs else take (nat (int (length xs) + n)) xs)"

text \<open>\<^verbatim>\<open>SolverBridge._generate_default_tariff\<close>\<close>

definition generate_default_tariff :: "int \<Rightarrow> real list" where
  "generate_default_tariff hours =
     map (\<lambda>hour.
            let hour_of_day = hour mod 24 in
            if (6 \<le> hour_of_day \<and> hour_of_day < 9) \<or> (18 \<le> hour_of_day \<and> hour_of_day < 22)
            then 8.5
            else if 9 \<le> hour_of_day \<and> hour_of_day < 18 then 6.5
            else 4.5)
       [0..<nat hours]"

text \<open>\<^verbatim>\<open>SolverBridge._pad_forecast\<close>: \<^verbatim>\<open>forecast[-1]\<close> raises on an empty list.\<close>

definition pad_forecast :: "real list \<Rightarrow> int \<Rightarrow> py_exception + real list" where
  "pad_forecast forecast target_length =
     (if int (length forecast) \<ge> target_length then Inr (slice_to forecast target_length)
      else
        (let padding_needed = target_length - int (length forecast) in
         if forecast = [] then Inl IndexError
         else Inr (forecast @ replicate (nat padding_needed) (last forecast))))"

text \<open>
  The local variables of \<^verbatim>\<open>_solve_simple_heuristic\<close> that its loop updates, and the body
  of the loop for one \<^verbatim>\<open>hour\<close>. An exception ends the call, so the appends made before it
  in the same iteration are not observable.
\<close>

record HeuristicState =
  st_battery_schedule :: "real list"
  st_grid_schedule :: "real list"
  soc :: real
  total_cost :: real
  baseline_cost :: real

definition hour_step ::
  "real list \<Rightarrow> real list \<Rightarrow> real \<Rightarrow> real list \<Rightarrow> nat \<Rightarrow> HeuristicState
     \<Rightarrow> py_exception + HeuristicState" where
  "hour_step solar load battery_capacity tariff hour st =
     (case getitem solar hour of Inl e \<Rightarrow> Inl e | Inr solar_h \<Rightarrow>
      case getitem load hour of Inl e \<Rightarrow> Inl e | Inr load_h \<Rightarrow>
      case getitem tariff hour of Inl e \<Rightarrow> Inl e | Inr tariff_h \<Rightarrow>
      (let max_charge_rate = battery_capacity * 0.5;
           max_discharge_rate = battery_capacity * 0.5;
           efficiency = 0.95;
           net_power = solar_h - load_h;
           st1 = st\<lparr>baseline_cost := baseline_cost st + max 0 (- net_power) * tariff_h\<rparr>
       in
       if net_power > 0 then
         (if soc st1 < 90 then
            (let charge_amount =
                   min (min net_power max_charge_rate) ((90 - soc st1) / 100 * battery_capacity)
             in case truediv charge_amount battery_capacity of Inl e \<Rightarrow> Inl e | Inr q \<Rightarrow>
                Inr (st1\<lparr>st_battery_schedule := st_battery_schedule st1 @ [charge_amount],
                       st_grid_schedule := st_grid_schedule st1 @ [net_power - charge_amount],
                       soc := soc st1 + q * 100 * efficiency\<rparr>))
          else
            Inr (st1\<lparr>st_battery_schedule := st_battery_schedule st1 @ [0],
                   st_grid_schedule := st_grid_schedule st1 @ [net_power]\<rparr>))
       else
         (let deficit = \<bar>net_power\<bar> in
          case truediv (sum_list tariff) (real (length tariff)) of Inl e \<Rightarrow> Inl e
          | Inr avg_tariff \<Rightarrow>
            if tariff_h > avg_tariff * 1.2 \<and> soc st1 > 20 then
              (let discharge_amount =
                     min (min deficit max_discharge_rate) ((soc st1 - 20) / 100 * battery_capacity)
               in case truediv discharge_amount battery_capacity of Inl e \<Rightarrow> Inl e | Inr q \<Rightarrow>
                  Inr (st1\<lparr>st_battery_schedule := st_battery_schedule st1 @ [- discharge_amount],
                         st_grid_schedule := st_grid_schedule st1 @ [deficit - discharge_amount],
                         soc := soc st1 - q * 100 / efficiency,
                         total_cost := total_cost st1 + (deficit - discharge_amount) * tariff_h\<rparr>))
            else
              Inr (st1\<lparr>st_battery_schedule := st_battery_schedule st1 @ [0],
                     st_grid_schedule := st_grid_schedule st1 @ [deficit],
                     total_cost := total_cost st1 + deficit * tariff_h\<rparr>))))"

text \<open>The loop \<^verbatim>\<open>for hour in range(horizon)\<close>, over the hours still to run.\<close>

fun heuristic_loop ::
  "real list \<Rightarrow> real list \<Rightarrow> real \<Rightarrow> real list \<Rightarrow> nat list \<Rightarrow> HeuristicState
     \<Rightarrow> py_exception + HeuristicState" where
  "heuristic_loop solar load battery_capacity tariff [] st = Inr st"
| "heuristic_loop solar load battery_capacity tariff (hour # hours) st =
     (case hour_step solar load battery_capacity tariff hour st of
        Inl e \<Rightarrow> Inl e
      | Inr st' \<Rightarrow> heuristic_loop solar load battery_capacity tariff hours st')"

text \<open>The values of the local variables before the loop.\<close>

definition heuristic_start :: "real \<Rightarrow> HeuristicState" where
  "heuristic_start initial_soc =
     \<lparr>st_battery_schedule = [], st_grid_schedule = [], soc = initial_soc, total_cost = 0,
      baseline_cost = 0\<rparr>"

text \<open>\<^verbatim>\<open>SolverBridge._solve_simple_heuristic\<close>\<close>

definition solve_simple_heuristic ::
  "real list \<Rightarrow> real list \<Rightarrow> real \<Rightarrow> real \<Rightarrow> real list \<Rightarrow> int
     \<Rightarrow> py_exception + OptimizationResult" where
  "solve_simple_heuristic solar load battery_capacity initial_soc tariff horizon =
     (case heuristic_loop solar load battery_capacity tariff [0..<nat horizon]
             (heuristic_start initial_soc) of
        Inl e \<Rightarrow> Inl e
      | Inr st \<Rightarrow>
          Inr \<lparr>success = True,
               objective_value = total_cost st,
               battery_schedule = st_battery_schedule st,
               grid_schedule = st_grid_schedule st,
               solve_time_ms = 0,
               solver_used = SIMPLE,
               iterations = horizon,
               cost_savings_pct =
                 (if baseline_cost st > 0
                  then (baseline_cost st - total_cost st) / baseline_cost st * 100 else 0)\<rparr>)"

text \<open>
  \<^verbatim>\<open>SolverBridge.optimize_energy_schedule\<close>. The two readings of \<^verbatim>\<open>time.time()\<close> a call
  makes are the parameters \<open>start_time\<close> and \<open>end_time\<close>. The tariff and the padding are
  computed before the \<^verbatim>\<open>try\<close>, so an exception of theirs leaves the call; the
  \<^verbatim>\<open>except Exception\<close> clause catches both exceptions of the heuristic.
\<close>

definition optimize_energy_schedule ::
  "SolverBridge \<Rightarrow> real list \<Rightarrow> real list \<Rightarrow> real \<Rightarrow> real \<Rightarrow> real list option \<Rightarrow> int
     \<Rightarrow> real \<Rightarrow> real \<Rightarrow> py_exception + OptimizationResult \<times> SolverBridge" where
  "optimize_energy_schedule bridge solar_forecast load_forecast battery_capacity initial_soc
       grid_tariff horizon_hours start_time end_time =
     (let tariff = (case grid_tariff of
                      None \<Rightarrow> generate_default_tariff horizon_hours | Some t \<Rightarrow> t) in
      case pad_forecast solar_forecast horizon_hours of Inl e \<Rightarrow> Inl e | Inr solar \<Rightarrow>
      case pad_forecast load_forecast horizon_hours of Inl e \<Rightarrow> Inl e | Inr load \<Rightarrow>
      (case solve_simple_heuristic solar load battery_capacity initial_soc tariff
              horizon_hours of
         Inr result \<Rightarrow>
           (let solve_time = (end_time - start_time) * 1000 in
            Inr (result\<lparr>solve_time_ms := solve_time, solver_used := SIMPLE\<rparr>,
                 bridge\<lparr>solve_count := solve_count bridge + 1,
                   total_solve_time := total_solve_time bridge + solve_time\<rparr>))
       | Inl e \<Rightarrow>
           Inr (\<lparr>success = False,
                  objective_value = 0,
                  battery_schedule = replicate (nat horizon_hours) 0,
                  grid_schedule = load,
                  solve_time_ms = (end_time - start_time) * 1000,
                  solver_used = SIMPLE,
                  iterations = 0,
                  cost_savings_pct = 0\<rparr>,
                bridge\<lparr>failed_solves := failed_solves bridge + 1\<rparr>)))"

section \<open>Properties of the guard rail\<close>

lemma validate_fst:
  "fst (validate fmt c v) \<longleftrightarrow> \<not> py_lt v (min_value c) \<and> \<not> py_gt v (max_value c)"
  by (simp add: validate_def)

lemma py_lt_NaN [simp]: "py_lt a NaN = False"
  by (cases a) simp_all

lemma py_le_iff:
  "a \<noteq> NaN \<Longrightarrow> b \<noteq> NaN \<Longrightarrow> py_le a b \<longleftrightarrow> \<not> py_lt b a"
  by (cases a; cases b) (auto simp: py_le_def)

lemma validate_step_eq:
  "validate_step fmt ckey ps c (vs, g) =
     (vs @ step_messages fmt ps c,
      g\<lparr>violation_count := violation_count g + int (length (step_blocks fmt ckey ps c)),
        blocked_actions := blocked_actions g @ step_blocks fmt ckey ps c\<rparr>)"
  by (auto simp: validate_step_def step_messages_def step_blocks_def split: option.splits prod.splits)

lemma fold_validate_step:
  "fold (validate_step fmt ckey ps) cs (vs, g) =
     (vs @ concat (map (step_messages fmt ps) cs),
      g\<lparr>violation_count :=
          violation_count g + int (length (concat (map (step_blocks fmt ckey ps) cs))),
        blocked_actions := blocked_actions g @ concat (map (step_blocks fmt ckey ps) cs)\<rparr>)"
  by (induction cs arbitrary: vs g) (simp_all add: validate_step_eq)

lemma GuardRail_init_eq:
  "GuardRail_init =
     \<lparr>constraints =
        [(''battery'',
          [\<lparr>name = ''Battery SOC'', ctype = SOC, min_value = Fin 10, max_value = Fin 95, critical = True\<rparr>,
           \<lparr>name = ''Battery Current'', ctype = CURRENT, min_value = Fin (- 200), max_value = Fin 200,
            critical = True\<rparr>]),
         (''grid'',
          [\<lparr>name = ''Grid Voltage'', ctype = VOLTAGE, min_value = Fin 380, max_value = Fin 420,
            critical = True\<rparr>,
           \<lparr>name = ''Grid Frequency'', ctype = FREQUENCY, min_value = Fin 49.5, max_value = Fin 50.5,
            critical = True\<rparr>]),
         (''solar'',
          [\<lparr>name = ''PV Temperature'', ctype = TEMPERATURE, min_value = Fin (- 20), max_value = Fin 85,
            critical = False\<rparr>])],
      violation_count = 0, blocked_actions = []\<rparr>"
  by code_simp

lemma validate_action_eq:
  "validate_action fmt g ckey ps =
     ((concat (map (step_messages fmt ps) (constraints_get g ckey)) = [],
       concat (map (step_messages fmt ps) (constraints_get g ckey))),
      g\<lparr>violation_count :=
          violation_count g +
          int (length (concat (map (step_blocks fmt ckey ps) (constraints_get g ckey)))),
        blocked_actions :=
          blocked_actions g @ concat (map (step_blocks fmt ckey ps) (constraints_get g ckey))\<rparr>)"
proof (cases "map_of (constraints g) ckey")
  case None
  then show ?thesis by (simp add: validate_action_def constraints_get_def)
next
  case (Some cs)
  then show ?thesis
    by (simp add: validate_action_def constraints_get_def fold_validate_step)
qed

lemma constraints_get_add_constraint:
  "constraints_get (add_constraint g k c) k' =
     (if k' = k then constraints_get g k @ [c] else constraints_get g k')"
  by (simp add: add_constraint_def constraints_get_def Let_def AList.update_conv'
      split: option.splits)

lemma counters_add_constraint:
  "violation_count (add_constraint g k c) = violation_count g"
  "blocked_actions (add_constraint g k c) = blocked_actions g"
  by (simp_all add: add_constraint_def Let_def)

lemma step_messages_Nil:
  "step_messages fmt ps c = [] \<longleftrightarrow>
     (\<forall>x. ps (map_parameter (ctype c)) = Some x \<longrightarrow> fst (validate fmt c x))"
  by (simp add: step_messages_def split: option.splits)

subsection \<open>Where the verdicts of the guard rail are the inclusive range check\<close>

text \<open>
  For a value and bounds that are numbers or infinities, \<^verbatim>\<open>Constraint.validate\<close> reports
  valid exactly when \<^verbatim>\<open>min_value <= value <= max_value\<close>, so both boundary values are valid.
  In \<^verbatim>\<open>validate_action\<close> a constraint whose parameter key is absent leaves the violations
  and the object as they are; the call is valid exactly when \<^verbatim>\<open>validate\<close> accepts the value
  of every constraint of the component whose parameter is present; and a component with no
  registered constraint gets \<open>(True, [])\<close> and leaves the object unchanged.
\<close>

lemma validate_in_range_iff:
  assumes "v \<noteq> NaN" and "min_value c \<noteq> NaN" and "max_value c \<noteq> NaN"
  shows "fst (validate fmt c v) \<longleftrightarrow> py_le (min_value c) v \<and> py_le v (max_value c)"
  using assms by (simp add: validate_fst py_le_iff py_gt_def)

lemma validate_action_skips_and_accepts:
  "(parameters (map_parameter (ctype c)) = None \<longrightarrow>
        validate_step fmt ckey parameters c st = st)
   \<and> (fst (fst (validate_action fmt g ckey parameters)) \<longleftrightarrow>
        (\<forall>c' \<in> set (constraints_get g ckey). \<forall>x.
           parameters (map_parameter (ctype c')) = Some x \<longrightarrow> fst (validate fmt c' x)))
   \<and> (constraints_get g ckey = [] \<longrightarrow>
        validate_action fmt g ckey parameters = ((True, []), g))"
proof (intro conjI impI)
  show "validate_step fmt ckey parameters c st = st"
    if "parameters (map_parameter (ctype c)) = None"
    using that by (simp add: validate_step_def)
  show "fst (fst (validate_action fmt g ckey parameters)) \<longleftrightarrow>
        (\<forall>c' \<in> set (constraints_get g ckey). \<forall>x.
           parameters (map_parameter (ctype c')) = Some x \<longrightarrow> fst (validate fmt c' x))"
    by (simp add: validate_action_eq step_messages_Nil)
  show "validate_action fmt g ckey parameters = ((True, []), g)"
    if "constraints_get g ckey = []"
    using that by (simp add: validate_action_eq)
qed

subsection \<open>C5: a value that is not a number passes validation\<close>

text \<open>
  Claim C5 says that for every constraint and every value \<^verbatim>\<open>Constraint.validate\<close> reports
  valid if and only if \<^verbatim>\<open>min_value <= value <= max_value\<close>. The source tests
  \<^verbatim>\<open>value < self.min_value\<close> and then \<^verbatim>\<open>value > self.max_value\<close>. For the float NaN both tests
  are false, so \<^verbatim>\<open>validate\<close> returns \<open>(True, None)\<close> for every constraint, although
  \<^verbatim>\<open>min_value <= nan <= max_value\<close> is false. On a fresh object
  \<^verbatim>\<open>validate_action("battery", {soc: nan})\<close> is therefore valid, with no violation and no
  block record.
\<close>

theorem validate_accepts_nan:
  "validate fmt c NaN = (True, None)
   \<and> \<not> (py_le (min_value c) NaN \<and> py_le NaN (max_value c))
   \<and> validate_action fmt GuardRail_init ''battery'' [''soc'' \<mapsto> NaN] =
       ((True, []), GuardRail_init)"
proof (intro conjI)
  show "validate fmt c NaN = (True, None)"
    by (simp add: validate_def py_gt_def)
  show "\<not> (py_le (min_value c) NaN \<and> py_le NaN (max_value c))"
    by (simp add: py_le_def)
  have cs: "constraints_get GuardRail_init ''battery'' =
      [\<lparr>name = ''Battery SOC'', ctype = SOC, min_value = Fin 10, max_value = Fin 95,
        critical = True\<rparr>,
       \<lparr>name = ''Battery Current'', ctype = CURRENT, min_value = Fin (- 200),
        max_value = Fin 200, critical = True\<rparr>]"
    by (simp add: constraints_get_def GuardRail_init_eq)
  show "validate_action fmt GuardRail_init ''battery'' [''soc'' \<mapsto> NaN] =
       ((True, []), GuardRail_init)"
    by (simp add: validate_action_eq cs step_messages_def step_blocks_def validate_def py_gt_def)
qed

subsection \<open>The block records of a call\<close>

lemma length_step_blocks:
  "length (concat (map (step_blocks fmt ckey ps) cs)) =
     length (filter (\<lambda>c. critical c \<and> step_messages fmt ps c \<noteq> []) cs)"
  by (induction cs) (simp_all add: step_blocks_def step_messages_def split: option.splits)

subsection \<open>C6: a critical violation is counted and recorded\<close>

text \<open>
  Claim C6. When the loop of \<^verbatim>\<open>validate_action\<close> meets a critical constraint whose
  parameter is present and out of bounds, it appends the message, adds one to
  \<^verbatim>\<open>violation_count\<close> and appends one block record with the component, the constraint's
  name, the value and the message. Over a whole call the counter grows by the number of
  violated critical constraints and the history by their records, in order. On an object
  with the default constraints, \<^verbatim>\<open>validate_action("battery", {soc: 5.0, current: -150.0})\<close>
  is invalid, its only message is the one of \<open>Battery SOC\<close> below its minimum 10, and the
  counter grows by exactly one.
\<close>

theorem validate_action_critical_block:
  "(parameters (map_parameter (ctype c)) = Some v \<and> \<not> fst (validate fmt c v) \<and> critical c \<longrightarrow>
      validate_step fmt ckey parameters c (vs, g) =
        (vs @ [snd (validate fmt c v)],
         g\<lparr>violation_count := violation_count g + 1,
           blocked_actions := blocked_actions g @
             [\<lparr>component = ckey, constraint = name c, blocked_value = v,
               error = snd (validate fmt c v)\<rparr>]\<rparr>))
   \<and> violation_count (snd (validate_action fmt g ckey parameters)) =
       violation_count g +
       int (length (filter (\<lambda>c. critical c \<and> step_messages fmt parameters c \<noteq> [])
              (constraints_get g ckey)))
   \<and> blocked_actions (snd (validate_action fmt g ckey parameters)) =
       blocked_actions g @ concat (map (step_blocks fmt ckey parameters) (constraints_get g ckey))
   \<and> (constraints g = constraints GuardRail_init \<longrightarrow>
        validate_action fmt g ''battery'' [''soc'' \<mapsto> Fin 5, ''current'' \<mapsto> Fin (- 150)] =
          ((False, [Some (''Battery SOC below minimum: '' @ fmt (Fin 5) @ '' < '' @ fmt (Fin 10))]),
           g\<lparr>violation_count := violation_count g + 1,
             blocked_actions := blocked_actions g @
               [\<lparr>component = ''battery'', constraint = ''Battery SOC'', blocked_value = Fin 5,
                 error = Some (''Battery SOC below minimum: '' @ fmt (Fin 5) @ '' < '' @ fmt (Fin 10))\<rparr>]\<rparr>))"
proof (intro conjI impI)
  show "validate_step fmt ckey parameters c (vs, g) =
        (vs @ [snd (validate fmt c v)],
         g\<lparr>violation_count := violation_count g + 1,
           blocked_actions := blocked_actions g @
             [\<lparr>component = ckey, constraint = name c, blocked_value = v,
               error = snd (validate fmt c v)\<rparr>]\<rparr>)"
    if "parameters (map_parameter (ctype c)) = Some v \<and> \<not> fst (validate fmt c v) \<and> critical c"
    using that by (simp add: validate_step_eq step_messages_def step_blocks_def)
  show "violation_count (snd (validate_action fmt g ckey parameters)) =
       violation_count g +
       int (length (filter (\<lambda>c. critical c \<and> step_messages fmt parameters c \<noteq> [])
              (constraints_get g ckey)))"
    by (simp add: validate_action_eq length_step_blocks)
  show "blocked_actions (snd (validate_action fmt g ckey parameters)) =
       blocked_actions g @ concat (map (step_blocks fmt ckey parameters) (constraints_get g ckey))"
    by (simp add: validate_action_eq)
  show "validate_action fmt g ''battery'' [''soc'' \<mapsto> Fin 5, ''current'' \<mapsto> Fin (- 150)] =
          ((False, [Some (''Battery SOC below minimum: '' @ fmt (Fin 5) @ '' < '' @ fmt (Fin 10))]),
           g\<lparr>violation_count := violation_count g + 1,
             blocked_actions := blocked_actions g @
               [\<lparr>component = ''battery'', constraint = ''Battery SOC'', blocked_value = Fin 5,
                 error = Some (''Battery SOC below minimum: '' @ fmt (Fin 5) @ '' < '' @ fmt (Fin 10))\<rparr>]\<rparr>)"
    if "constraints g = constraints GuardRail_init"
  proof -
    have cs: "constraints_get g ''battery'' =
        [\<lparr>name = ''Battery SOC'', ctype = SOC, min_value = Fin 10, max_value = Fin 95, critical = True\<rparr>,
         \<lparr>name = ''Battery Current'', ctype = CURRENT, min_value = Fin (- 200), max_value = Fin 200,
          critical = True\<rparr>]"
      using that by (simp add: constraints_get_def GuardRail_init_eq)
    show ?thesis
      by (simp add: validate_action_eq cs step_messages_def step_blocks_def validate_def py_gt_def)
  qed
qed

text \<open>The statement on the freshly constructed object, at the SOC constraint and the value 5.\<close>

theorem validate_action_critical_block_witness:
  "validate_step (\<lambda>_. []) ''battery'' [''soc'' \<mapsto> Fin 5, ''current'' \<mapsto> Fin (- 150)]
      \<lparr>name = ''Battery SOC'', ctype = SOC, min_value = Fin 10, max_value = Fin 95, critical = True\<rparr>
      ([], GuardRail_init) =
     ([Some ''Battery SOC below minimum:  < ''],
      GuardRail_init\<lparr>violation_count := 1,
        blocked_actions :=
          [\<lparr>component = ''battery'', constraint = ''Battery SOC'', blocked_value = Fin 5,
            error = Some ''Battery SOC below minimum:  < ''\<rparr>]\<rparr>)
   \<and> validate_action (\<lambda>_. []) GuardRail_init ''battery'' [''soc'' \<mapsto> Fin 5, ''current'' \<mapsto> Fin (- 150)] =
       ((False, [Some ''Battery SOC below minimum:  < '']),
        GuardRail_init\<lparr>violation_count := 1,
          blocked_actions :=
            [\<lparr>component = ''battery'', constraint = ''Battery SOC'', blocked_value = Fin 5,
              error = Some ''Battery SOC below minimum:  < ''\<rparr>]\<rparr>)"
  using validate_action_critical_block [of "[''soc'' \<mapsto> Fin 5, ''current'' \<mapsto> Fin (- 150)]"
      "\<lparr>name = ''Battery SOC'', ctype = SOC, min_value = Fin 10, max_value = Fin 95, critical = True\<rparr>"
      "Fin 5" "\<lambda>_. []" "''battery''" "[]" GuardRail_init]
  by (simp add: validate_def py_gt_def GuardRail_init_eq)

subsection \<open>The counters across calls\<close>

lemma health_step_snd:
  "snd (health_step fmt (ckey, state) (report, g)) = snd (validate_action fmt g ckey state)"
  by (simp add: health_step_def Let_def split: prod.splits)

lemma counters_validate_action:
  "violation_count g = int (length (blocked_actions g)) \<Longrightarrow>
   violation_count (snd (validate_action fmt g ckey ps)) =
     int (length (blocked_actions (snd (validate_action fmt g ckey ps))))"
  by (simp add: validate_action_eq)

lemma counters_health_fold:
  "violation_count g = int (length (blocked_actions g)) \<Longrightarrow>
   violation_count (snd (fold (health_step fmt) items (report, g))) =
     int (length (blocked_actions (snd (fold (health_step fmt) items (report, g)))))"
proof (induction items arbitrary: report g)
  case Nil
  then show ?case by simp
next
  case (Cons item items)
  obtain ckey state where item: "item = (ckey, state)" by (cases item)
  obtain report' g' where step: "health_step fmt item (report, g) = (report', g')"
    by (cases "health_step fmt item (report, g)")
  have "g' = snd (validate_action fmt g ckey state)"
    using step health_step_snd [of fmt ckey state report g] by (simp add: item)
  then have "violation_count g' = int (length (blocked_actions g'))"
    using Cons.prems by (simp add: counters_validate_action)
  then show ?case
    using Cons.IH [of g' report'] by (simp add: step)
qed

lemma counters_run_call:
  "violation_count g = int (length (blocked_actions g)) \<Longrightarrow>
   violation_count (run_call fmt call g) = int (length (blocked_actions (run_call fmt call g)))"
  by (cases call)
    (simp_all add: counters_add_constraint counters_validate_action counters_health_fold
      check_system_health_def)

lemma counters_run_calls:
  "violation_count g = int (length (blocked_actions g)) \<Longrightarrow>
   violation_count (fold (run_call fmt) calls g) =
     int (length (blocked_actions (fold (run_call fmt) calls g)))"
  by (induction calls arbitrary: g) (simp_all add: counters_run_call)

subsection \<open>C10: the counter is the length of the history\<close>

text \<open>
  Claim C10. On an object made by \<^verbatim>\<open>GuardRail()\<close>, after any sequence of
  \<^verbatim>\<open>validate_action\<close> and \<^verbatim>\<open>check_system_health\<close> calls (and of \<^verbatim>\<open>add_constraint\<close> calls
  between them), \<^verbatim>\<open>violation_count\<close> is the length of \<^verbatim>\<open>blocked_actions\<close>, and
  \<^verbatim>\<open>get_statistics\<close> reports the same number under \<^verbatim>\<open>violation_count\<close> and
  \<^verbatim>\<open>blocked_actions_count\<close>.
\<close>

theorem violation_count_is_history_length:
  "violation_count (fold (run_call fmt) calls GuardRail_init) =
     int (length (blocked_actions (fold (run_call fmt) calls GuardRail_init)))
   \<and> stats_violation_count (get_statistics (fold (run_call fmt) calls GuardRail_init)) =
       blocked_actions_count (get_statistics (fold (run_call fmt) calls GuardRail_init))"
proof -
  have "violation_count GuardRail_init = int (length (blocked_actions GuardRail_init))"
    by (simp add: GuardRail_init_eq)
  then have "violation_count (fold (run_call fmt) calls GuardRail_init) =
     int (length (blocked_actions (fold (run_call fmt) calls GuardRail_init)))"
    by (rule counters_run_calls)
  then show ?thesis by (simp add: get_statistics_def)
qed

text \<open>
  Two calls that each meet one critical violation: a battery action at SOC 5, and a health
  check of a grid at 430 V. Counter and history length are both 2.
\<close>

theorem violation_count_is_history_length_witness:
  "violation_count (fold (run_call (\<lambda>_. []))
      [ValidateAction ''battery'' [''soc'' \<mapsto> Fin 5],
       CheckSystemHealth [(''grid'', [''voltage'' \<mapsto> Fin 430, ''frequency'' \<mapsto> Fin 50])]]
      GuardRail_init) = 2
   \<and> length (blocked_actions (fold (run_call (\<lambda>_. []))
      [ValidateAction ''battery'' [''soc'' \<mapsto> Fin 5],
       CheckSystemHealth [(''grid'', [''voltage'' \<mapsto> Fin 430, ''frequency'' \<mapsto> Fin 50])]]
      GuardRail_init)) = 2"
proof -
  have "violation_count (fold (run_call (\<lambda>_. []))
      [ValidateAction ''battery'' [''soc'' \<mapsto> Fin 5],
       CheckSystemHealth [(''grid'', [''voltage'' \<mapsto> Fin 430, ''frequency'' \<mapsto> Fin 50])]]
      GuardRail_init) = 2"
    by code_simp
  then show ?thesis
    using violation_count_is_history_length [of "\<lambda>_. []"
      "[ValidateAction ''battery'' [''soc'' \<mapsto> Fin 5],
        CheckSystemHealth [(''grid'', [''voltage'' \<mapsto> Fin 430, ''frequency'' \<mapsto> Fin 50])]]"]
    by simp
qed

subsection \<open>C1: registering a constraint under a name that is already there\<close>

text \<open>
  Claim C1 says that \<^verbatim>\<open>add_constraint\<close> replaces a constraint of the same name. The source
  appends to the component's list and never looks at names. Registering a second
  \<open>Battery SOC\<close> constraint with the bounds 0 and 100 on a fresh object leaves two constraints
  of that name; the value 5 is within the new bounds, and \<^verbatim>\<open>validate_action\<close> still rejects
  it, with the message of the first constraint's minimum.
\<close>

theorem add_constraint_replaces_counterexample:
  "length (filter (\<lambda>c. name c = ''Battery SOC'')
      (constraints_get
         (add_constraint GuardRail_init ''battery''
            \<lparr>name = ''Battery SOC'', ctype = SOC, min_value = Fin 0, max_value = Fin 100,
             critical = True\<rparr>) ''battery'')) = 2
   \<and> fst (validate (\<lambda>_. [])
         \<lparr>name = ''Battery SOC'', ctype = SOC, min_value = Fin 0, max_value = Fin 100, critical = True\<rparr> (Fin 5))
   \<and> fst (validate_action (\<lambda>_. [])
         (add_constraint GuardRail_init ''battery''
            \<lparr>name = ''Battery SOC'', ctype = SOC, min_value = Fin 0, max_value = Fin 100,
             critical = True\<rparr>) ''battery'' [''soc'' \<mapsto> Fin 5]) =
       (False, [Some ''Battery SOC below minimum:  < ''])"
proof -
  have base: "constraints_get GuardRail_init ''battery'' =
      [\<lparr>name = ''Battery SOC'', ctype = SOC, min_value = Fin 10, max_value = Fin 95, critical = True\<rparr>,
       \<lparr>name = ''Battery Current'', ctype = CURRENT, min_value = Fin (- 200), max_value = Fin 200,
        critical = True\<rparr>]"
    by (simp add: constraints_get_def GuardRail_init_eq)
  show ?thesis
    by (simp add: validate_action_eq constraints_get_add_constraint base step_messages_def
        validate_def py_gt_def)
qed

text \<open>
  Claim C1 as amended. \<^verbatim>\<open>add_constraint\<close> appends the constraint to the list of its
  component and keeps every constraint already there, also those of the same name: the
  number of constraints of that name under the component grows by one, the lists of the
  other components are unchanged, and \<^verbatim>\<open>validate_action\<close> on the component reports the
  violations it reported before followed by the new constraint's.
\<close>

theorem add_constraint_appends:
  "constraints_get (add_constraint g ckey c) ckey = constraints_get g ckey @ [c]
   \<and> length (filter (\<lambda>c'. name c' = name c) (constraints_get (add_constraint g ckey c) ckey)) =
       Suc (length (filter (\<lambda>c'. name c' = name c) (constraints_get g ckey)))
   \<and> snd (fst (validate_action fmt (add_constraint g ckey c) ckey parameters)) =
       snd (fst (validate_action fmt g ckey parameters)) @ step_messages fmt parameters c
   \<and> (ckey' \<noteq> ckey \<longrightarrow>
        constraints_get (add_constraint g ckey c) ckey' = constraints_get g ckey')"
  by (simp add: constraints_get_add_constraint validate_action_eq)

text \<open>The amended statement on a fresh object, at a second \<open>Battery SOC\<close> constraint.\<close>

theorem add_constraint_appends_witness:
  "length (constraints_get
      (add_constraint GuardRail_init ''battery''
         \<lparr>name = ''Battery SOC'', ctype = SOC, min_value = Fin 0, max_value = Fin 100,
          critical = True\<rparr>) ''battery'') = 3
   \<and> length (constraints_get
      (add_constraint GuardRail_init ''battery''
         \<lparr>name = ''Battery SOC'', ctype = SOC, min_value = Fin 0, max_value = Fin 100,
          critical = True\<rparr>) ''grid'') = 2"
  using add_constraint_appends [of GuardRail_init "''battery''"
      "\<lparr>name = ''Battery SOC'', ctype = SOC, min_value = Fin 0, max_value = Fin 100, critical = True\<rparr>"
      "\<lambda>_. []" "[''soc'' \<mapsto> Fin 5]" "''grid''"]
  by (simp add: constraints_get_def GuardRail_init_eq)

subsection \<open>The health check, field by field\<close>

lemma validate_action_constraints:
  "constraints (snd (validate_action fmt g ckey ps)) = constraints g"
  by (simp add: validate_action_eq)

lemma constraints_get_cong:
  "constraints g' = constraints g \<Longrightarrow> constraints_get g' ckey = constraints_get g ckey"
  by (simp add: constraints_get_def)

lemma validate_action_fst_cong:
  "constraints g' = constraints g \<Longrightarrow>
   fst (validate_action fmt g' ckey ps) = fst (validate_action fmt g ckey ps)"
  by (simp add: validate_action_eq constraints_get_def)

lemma health_step_fields:
  assumes "constraints g' = constraints g"
  shows "constraints (snd (health_step fmt (ckey, state) (r, g'))) = constraints g"
    and "healthy (fst (health_step fmt (ckey, state) (r, g'))) \<longleftrightarrow>
           healthy r \<and> fst (fst (validate_action fmt g ckey state))"
    and "critical_violations (fst (health_step fmt (ckey, state) (r, g'))) =
           critical_violations r +
           (if fst (fst (validate_action fmt g ckey state)) then 0
            else critical_tally fmt g ckey state)"
    and "warnings (fst (health_step fmt (ckey, state) (r, g'))) =
           warnings r +
           (if fst (fst (validate_action fmt g ckey state)) then 0
            else int (length (snd (fst (validate_action fmt g ckey state)))) -
                 critical_tally fmt g ckey state)"
proof -
  obtain b vs g'' where va: "validate_action fmt g' ckey state = ((b, vs), g'')"
    by (metis prod.collapse)
  have fst_eq: "fst (validate_action fmt g ckey state) = (b, vs)"
    using validate_action_fst_cong [OF assms, of fmt ckey state] va by simp
  have cons: "constraints g'' = constraints g"
    using validate_action_constraints [of fmt g' ckey state] va assms by simp
  have cg: "critical_tally fmt g'' ckey state = critical_tally fmt g ckey state"
    using cons by (simp add: critical_tally_def constraints_get_def)
  show "constraints (snd (health_step fmt (ckey, state) (r, g'))) = constraints g"
    by (simp add: health_step_def va cons Let_def)
  show "healthy (fst (health_step fmt (ckey, state) (r, g'))) \<longleftrightarrow>
           healthy r \<and> fst (fst (validate_action fmt g ckey state))"
    by (simp add: health_step_def va fst_eq Let_def)
  show "critical_violations (fst (health_step fmt (ckey, state) (r, g'))) =
           critical_violations r +
           (if fst (fst (validate_action fmt g ckey state)) then 0
            else critical_tally fmt g ckey state)"
    by (simp add: health_step_def va fst_eq cg Let_def)
  show "warnings (fst (health_step fmt (ckey, state) (r, g'))) =
           warnings r +
           (if fst (fst (validate_action fmt g ckey state)) then 0
            else int (length (snd (fst (validate_action fmt g ckey state)))) -
                 critical_tally fmt g ckey state)"
    by (simp add: health_step_def va fst_eq cg Let_def)
qed


lemma health_fold_fields:
  "constraints g' = constraints g \<Longrightarrow>
   (healthy (fst (fold (health_step fmt) items (r, g'))) \<longleftrightarrow>
      healthy r \<and> list_all (\<lambda>(ckey, state). fst (fst (validate_action fmt g ckey state))) items)
   \<and> critical_violations (fst (fold (health_step fmt) items (r, g'))) =
       critical_violations r +
       sum_list (map (\<lambda>(ckey, state).
         if fst (fst (validate_action fmt g ckey state)) then 0
         else critical_tally fmt g ckey state) items)
   \<and> warnings (fst (fold (health_step fmt) items (r, g'))) =
       warnings r +
       sum_list (map (\<lambda>(ckey, state).
         if fst (fst (validate_action fmt g ckey state)) then 0
         else int (length (snd (fst (validate_action fmt g ckey state)))) -
              critical_tally fmt g ckey state) items)"
proof (induction items arbitrary: r g')
  case Nil
  show ?case by simp
next
  case (Cons item items)
  obtain ckey state where item: "item = (ckey, state)" by (cases item)
  obtain r1 g1 where step: "health_step fmt (ckey, state) (r, g') = (r1, g1)"
    by (cases "health_step fmt (ckey, state) (r, g')")
  note f = health_step_fields [OF Cons.prems, of fmt ckey state r, unfolded step fst_conv snd_conv]
  show ?case
    using Cons.IH [OF f(1), of r1] f(2) f(3) f(4)
    by (simp add: item step)
qed

lemma length_step_messages:
  "length (concat (map (step_messages fmt ps) cs)) =
     length (filter (\<lambda>c. step_messages fmt ps c \<noteq> []) cs)"
  by (induction cs) (simp_all add: step_messages_def split: option.splits)

lemma warnings_item:
  assumes "\<forall>c \<in> set cs. critical c \<and> state (map_parameter (ctype c)) = None \<longrightarrow>
             fst (validate fmt c (Fin 0))"
  shows "int (length (filter (\<lambda>c. step_messages fmt state c \<noteq> []) cs)) -
         int (length (filter
           (\<lambda>c. critical c \<and>
              \<not> fst (validate fmt c
                  (case state (map_parameter (ctype c)) of None \<Rightarrow> Fin 0 | Some v \<Rightarrow> v))) cs)) =
         int (length (filter (\<lambda>c. \<not> critical c \<and> step_messages fmt state c \<noteq> []) cs))"
  using assms
  by (induction cs) (auto simp: step_messages_def split: option.splits)


lemma warnings_item_eq:
  assumes "\<not> fst (fst (validate_action fmt g ckey state)) \<longrightarrow>
           (\<forall>c \<in> set (constraints_get g ckey).
              critical c \<and> state (map_parameter (ctype c)) = None \<longrightarrow> fst (validate fmt c (Fin 0)))"
  shows "(if fst (fst (validate_action fmt g ckey state)) then 0
          else int (length (snd (fst (validate_action fmt g ckey state)))) -
               critical_tally fmt g ckey state) =
         int (length (filter (\<lambda>c. \<not> critical c \<and> step_messages fmt state c \<noteq> [])
                (constraints_get g ckey)))"
proof (cases "fst (fst (validate_action fmt g ckey state))")
  case True
  then have "\<forall>c \<in> set (constraints_get g ckey). step_messages fmt state c = []"
    by (simp add: validate_action_eq)
  then have "filter (\<lambda>c. \<not> critical c \<and> step_messages fmt state c \<noteq> [])
      (constraints_get g ckey) = []"
    by (simp add: filter_empty_conv)
  with True show ?thesis by simp
next
  case False
  with assms have "\<forall>c \<in> set (constraints_get g ckey).
      critical c \<and> state (map_parameter (ctype c)) = None \<longrightarrow> fst (validate fmt c (Fin 0))"
    by simp
  from warnings_item [OF this] False show ?thesis
    by (simp add: validate_action_eq length_step_messages critical_tally_def)
qed

subsection \<open>C4: a negative number of warnings\<close>

text \<open>
  Claim C4 says that the \<^verbatim>\<open>warnings\<close> counter of \<^verbatim>\<open>check_system_health\<close> is the number of
  non-critical violations. Under the comment \<^verbatim>\<open># Count critical vs warning violations\<close> the
  source adds, for each invalid component, \<^verbatim>\<open>len(violations) - critical\<close>, where
  \<^verbatim>\<open>critical\<close> counts the critical constraints that fail at \<^verbatim>\<open>state.get(key, 0)\<close>, while
  \<^verbatim>\<open>validate_action\<close>, which produced \<^verbatim>\<open>violations\<close>, skips a constraint whose key is
  absent. For a fresh object and the state \<^verbatim>\<open>{"grid": {"voltage": 430.0}}\<close> there is one
  violation, of the critical voltage constraint; the frequency constraint is counted too,
  because it fails at 0; so \<^verbatim>\<open>critical_violations\<close> is 2 and \<^verbatim>\<open>warnings\<close> is \<open>-1\<close>,
  although no non-critical constraint is violated.
\<close>

theorem check_system_health_warnings_negative:
  "warnings (fst (check_system_health (\<lambda>_. []) GuardRail_init
      [(''grid'', [''voltage'' \<mapsto> Fin 430])])) = - 1
   \<and> critical_violations (fst (check_system_health (\<lambda>_. []) GuardRail_init
      [(''grid'', [''voltage'' \<mapsto> Fin 430])])) = 2
   \<and> length (snd (fst (validate_action (\<lambda>_. []) GuardRail_init ''grid''
      [''voltage'' \<mapsto> Fin 430]))) = 1
   \<and> filter (\<lambda>c. \<not> critical c \<and> step_messages (\<lambda>_. []) [''voltage'' \<mapsto> Fin 430] c \<noteq> [])
       (constraints_get GuardRail_init ''grid'') = []"
  by code_simp

text \<open>
  What the report does compute, for every object and every \<^verbatim>\<open>system_state\<close>, given as its
  items in order: \<^verbatim>\<open>healthy\<close> is true exactly when \<^verbatim>\<open>validate_action\<close> accepts every
  component of the input; \<^verbatim>\<open>critical_violations\<close> is the sum, over the invalid components,
  of the number of critical constraints that fail when an absent parameter is read as 0;
  and \<^verbatim>\<open>warnings\<close> is the number of violated non-critical constraints on the inputs where,
  in every invalid component, each critical constraint whose parameter is absent accepts
  the value 0. On the default constraints the state
  \<^verbatim>\<open>{"grid": {voltage: 430.0, frequency: 50.0}}\<close> gives \<^verbatim>\<open>healthy = False\<close> and
  \<^verbatim>\<open>critical_violations = 1\<close>.
\<close>

lemma check_system_health_report:
  "(healthy (fst (check_system_health fmt g system_state)) \<longleftrightarrow>
      (\<forall>(ckey, state) \<in> set system_state. fst (fst (validate_action fmt g ckey state))))
   \<and> critical_violations (fst (check_system_health fmt g system_state)) =
       sum_list (map (\<lambda>(ckey, state).
         if fst (fst (validate_action fmt g ckey state)) then 0
         else critical_tally fmt g ckey state) system_state)
   \<and> ((\<forall>(ckey, state) \<in> set system_state.
          \<not> fst (fst (validate_action fmt g ckey state)) \<longrightarrow>
          (\<forall>c \<in> set (constraints_get g ckey).
             critical c \<and> state (map_parameter (ctype c)) = None \<longrightarrow> fst (validate fmt c (Fin 0))))
        \<longrightarrow>
        warnings (fst (check_system_health fmt g system_state)) =
          sum_list (map (\<lambda>(ckey, state).
            int (length (filter (\<lambda>c. \<not> critical c \<and> step_messages fmt state c \<noteq> [])
                   (constraints_get g ckey)))) system_state))
   \<and> (constraints g = constraints GuardRail_init \<longrightarrow>
        \<not> healthy (fst (check_system_health fmt g
             [(''grid'', [''voltage'' \<mapsto> Fin 430, ''frequency'' \<mapsto> Fin 50])]))
        \<and> critical_violations (fst (check_system_health fmt g
             [(''grid'', [''voltage'' \<mapsto> Fin 430, ''frequency'' \<mapsto> Fin 50])])) = 1)"
proof -
  note f = health_fold_fields [where g' = g and g = g and fmt = fmt and items = system_state
      and r = "\<lparr>healthy = True, components = [], critical_violations = 0, warnings = 0\<rparr>",
      OF refl]
  have h: "healthy (fst (check_system_health fmt g system_state)) \<longleftrightarrow>
      (\<forall>(ckey, state) \<in> set system_state. fst (fst (validate_action fmt g ckey state)))"
    using f by (simp add: check_system_health_def list_all_iff)
  have c: "critical_violations (fst (check_system_health fmt g system_state)) =
       sum_list (map (\<lambda>(ckey, state).
         if fst (fst (validate_action fmt g ckey state)) then 0
         else critical_tally fmt g ckey state) system_state)"
    using f by (simp add: check_system_health_def)
  have w: "warnings (fst (check_system_health fmt g system_state)) =
          sum_list (map (\<lambda>(ckey, state).
            int (length (filter (\<lambda>c. \<not> critical c \<and> step_messages fmt state c \<noteq> [])
                   (constraints_get g ckey)))) system_state)"
    if H: "\<forall>(ckey, state) \<in> set system_state.
          \<not> fst (fst (validate_action fmt g ckey state)) \<longrightarrow>
          (\<forall>c \<in> set (constraints_get g ckey).
             critical c \<and> state (map_parameter (ctype c)) = None \<longrightarrow> fst (validate fmt c (Fin 0)))"
  proof -
    have "map (\<lambda>(ckey, state).
             if fst (fst (validate_action fmt g ckey state)) then 0
             else int (length (snd (fst (validate_action fmt g ckey state)))) -
                  critical_tally fmt g ckey state) system_state =
          map (\<lambda>(ckey, state).
            int (length (filter (\<lambda>c. \<not> critical c \<and> step_messages fmt state c \<noteq> [])
                   (constraints_get g ckey)))) system_state"
    proof (rule map_cong [OF refl])
      fix item assume mem: "item \<in> set system_state"
      obtain ckey state where item: "item = (ckey, state)" by (cases item)
      from H mem item have "\<not> fst (fst (validate_action fmt g ckey state)) \<longrightarrow>
          (\<forall>c \<in> set (constraints_get g ckey).
             critical c \<and> state (map_parameter (ctype c)) = None \<longrightarrow> fst (validate fmt c (Fin 0)))"
        by blast
      from warnings_item_eq [OF this] show "(case item of (ckey, state) \<Rightarrow>
             if fst (fst (validate_action fmt g ckey state)) then 0
             else int (length (snd (fst (validate_action fmt g ckey state)))) -
                  critical_tally fmt g ckey state) =
          (case item of (ckey, state) \<Rightarrow>
            int (length (filter (\<lambda>c. \<not> critical c \<and> step_messages fmt state c \<noteq> [])
                   (constraints_get g ckey))))"
        by (simp add: item)
    qed
    then have "sum_list (map (\<lambda>(ckey, state).
             if fst (fst (validate_action fmt g ckey state)) then 0
             else int (length (snd (fst (validate_action fmt g ckey state)))) -
                  critical_tally fmt g ckey state) system_state) =
          sum_list (map (\<lambda>(ckey, state).
            int (length (filter (\<lambda>c. \<not> critical c \<and> step_messages fmt state c \<noteq> [])
                   (constraints_get g ckey)))) system_state)"
      by (rule arg_cong)
    moreover have "warnings (fst (check_system_health fmt g system_state)) =
          sum_list (map (\<lambda>(ckey, state).
             if fst (fst (validate_action fmt g ckey state)) then 0
             else int (length (snd (fst (validate_action fmt g ckey state)))) -
                  critical_tally fmt g ckey state) system_state)"
      using f by (simp add: check_system_health_def)
    ultimately show ?thesis by (rule trans [rotated])
  qed
  have d: "\<not> healthy (fst (check_system_health fmt g
             [(''grid'', [''voltage'' \<mapsto> Fin 430, ''frequency'' \<mapsto> Fin 50])]))
        \<and> critical_violations (fst (check_system_health fmt g
             [(''grid'', [''voltage'' \<mapsto> Fin 430, ''frequency'' \<mapsto> Fin 50])])) = 1"
    if "constraints g = constraints GuardRail_init"
  proof -
    have cs: "constraints_get g ''grid'' =
        [\<lparr>name = ''Grid Voltage'', ctype = VOLTAGE, min_value = Fin 380, max_value = Fin 420,
          critical = True\<rparr>,
         \<lparr>name = ''Grid Frequency'', ctype = FREQUENCY, min_value = Fin 49.5, max_value = Fin 50.5,
          critical = True\<rparr>]"
      using that by (simp add: constraints_get_def GuardRail_init_eq)
    have v: "\<not> fst (fst (validate_action fmt g ''grid''
        [''voltage'' \<mapsto> Fin 430, ''frequency'' \<mapsto> Fin 50]))"
      by (simp add: validate_action_eq cs step_messages_def validate_def py_gt_def)
    have t: "critical_tally fmt g ''grid'' [''voltage'' \<mapsto> Fin 430, ''frequency'' \<mapsto> Fin 50] = 1"
      by (simp add: critical_tally_def cs validate_def py_gt_def)
    show ?thesis
      using health_fold_fields [where g' = g and g = g and fmt = fmt
          and items = "[(''grid'', [''voltage'' \<mapsto> Fin 430, ''frequency'' \<mapsto> Fin 50])]"
          and r = "\<lparr>healthy = True, components = [], critical_violations = 0, warnings = 0\<rparr>",
          OF refl] v t
      by (simp add: check_system_health_def)
  qed
  from h c w d show ?thesis by blast
qed

section \<open>Properties of the solver bridge\<close>

subsection \<open>The loop of the heuristic\<close>

lemma charge_bounds:
  fixes cap net s :: real
  assumes "0 < cap" "0 < net" "s < 90"
  shows "0 \<le> min (min net (cap * 0.5)) ((90 - s) / 100 * cap) / cap"
    and "min (min net (cap * 0.5)) ((90 - s) / 100 * cap) / cap \<le> (90 - s) / 100"
proof -
  have "0 < (90 - s) / 100 * cap" using assms by simp
  then have "0 \<le> min (min net (cap * 0.5)) ((90 - s) / 100 * cap)"
    using assms by simp
  then show "0 \<le> min (min net (cap * 0.5)) ((90 - s) / 100 * cap) / cap"
    using assms(1) by simp
  have "min (min net (cap * 0.5)) ((90 - s) / 100 * cap) \<le> (90 - s) / 100 * cap"
    by simp
  then show "min (min net (cap * 0.5)) ((90 - s) / 100 * cap) / cap \<le> (90 - s) / 100"
    using assms(1) by (simp add: pos_divide_le_eq)
qed

lemma discharge_bounds:
  fixes cap d s :: real
  assumes "0 < cap" "0 \<le> d" "20 < s"
  shows "0 \<le> min (min d (cap * 0.5)) ((s - 20) / 100 * cap) / cap"
    and "min (min d (cap * 0.5)) ((s - 20) / 100 * cap) / cap \<le> (s - 20) / 100"
proof -
  have "0 < (s - 20) / 100 * cap" using assms by simp
  then have "0 \<le> min (min d (cap * 0.5)) ((s - 20) / 100 * cap)"
    using assms by simp
  then show "0 \<le> min (min d (cap * 0.5)) ((s - 20) / 100 * cap) / cap"
    using assms(1) by simp
  have "min (min d (cap * 0.5)) ((s - 20) / 100 * cap) \<le> (s - 20) / 100 * cap"
    by simp
  then show "min (min d (cap * 0.5)) ((s - 20) / 100 * cap) / cap \<le> (s - 20) / 100"
    using assms(1) by (simp add: pos_divide_le_eq)
qed

lemma charge_soc:
  fixes q s :: real
  assumes "0 \<le> q" "q \<le> (90 - s) / 100" "0 \<le> s"
  shows "0 \<le> s + q * 100 * 0.95" and "s + q * 100 * 0.95 \<le> 100"
  using assms by simp_all

lemma discharge_soc:
  fixes q s :: real
  assumes "0 \<le> q" "q \<le> (s - 20) / 100" "s \<le> 100"
  shows "0 \<le> s - q * 100 / 0.95" and "s - q * 100 / 0.95 \<le> 100"
  using assms by simp_all


lemma hour_step_soc_cases:
  assumes "hour_step solar load cap tariff hour st = Inr st'"
  shows "soc st' = soc st
     \<or> (\<exists>net. 0 < net \<and> soc st < 90 \<and>
           soc st' = soc st + min (min net (cap * 0.5)) ((90 - soc st) / 100 * cap) / cap * 100 * 0.95)
     \<or> (\<exists>d. 0 \<le> d \<and> 20 < soc st \<and>
           soc st' = soc st - min (min d (cap * 0.5)) ((soc st - 20) / 100 * cap) / cap * 100 / 0.95)"
proof -
  from assms obtain solar_h load_h tariff_h where
    g: "getitem solar hour = Inr solar_h" "getitem load hour = Inr load_h"
       "getitem tariff hour = Inr tariff_h"
    by (auto simp: hour_step_def split: sum.splits)
  define net where "net = solar_h - load_h"
  show ?thesis
  proof (cases "0 < net")
    case True
    show ?thesis
    proof (cases "soc st < 90")
      case charge: True
      from assms have "soc st' =
          soc st + min (min net (cap * 0.5)) ((90 - soc st) / 100 * cap) / cap * 100 * 0.95"
        using True charge
        by (auto simp: hour_step_def g Let_def truediv_def net_def split: if_splits)
      with True charge show ?thesis by blast
    next
      case False
      from assms have "soc st' = soc st"
        using True False by (auto simp: hour_step_def g Let_def net_def)
      then show ?thesis by simp
    qed
  next
    case False
    from assms have "soc st' = soc st \<or> (20 < soc st \<and>
          soc st' = soc st - min (min \<bar>net\<bar> (cap * 0.5)) ((soc st - 20) / 100 * cap) / cap * 100 / 0.95)"
      using False
      by (auto simp: hour_step_def g Let_def truediv_def net_def split: if_splits)
    then show ?thesis
      using abs_ge_zero [of net] by blast
  qed
qed

lemma hour_step_soc:
  assumes "hour_step solar load cap tariff hour st = Inr st'"
    and "0 < cap" and "0 \<le> soc st" and "soc st \<le> 100"
  shows "0 \<le> soc st' \<and> soc st' \<le> 100"
proof -
  from hour_step_soc_cases [OF assms(1)] consider
    (same) "soc st' = soc st"
  | (charge) net where "0 < net" "soc st < 90"
      "soc st' = soc st + min (min net (cap * 0.5)) ((90 - soc st) / 100 * cap) / cap * 100 * 0.95"
  | (discharge) d where "0 \<le> d" "20 < soc st"
      "soc st' = soc st - min (min d (cap * 0.5)) ((soc st - 20) / 100 * cap) / cap * 100 / 0.95"
    by blast
  then show ?thesis
  proof cases
    case same
    with assms show ?thesis by simp
  next
    case charge
    note b = charge_bounds [OF assms(2) charge(1) charge(2)]
    from charge_soc [OF b assms(3)] charge(3) show ?thesis by simp
  next
    case discharge
    note b = discharge_bounds [OF assms(2) discharge(1) discharge(2)]
    from discharge_soc [OF b assms(4)] discharge(3) show ?thesis by simp
  qed
qed

lemma heuristic_loop_soc:
  assumes "0 < cap"
  shows "heuristic_loop solar load cap tariff hours st = Inr st' \<Longrightarrow>
         0 \<le> soc st \<Longrightarrow> soc st \<le> 100 \<Longrightarrow> 0 \<le> soc st' \<and> soc st' \<le> 100"
proof (induction hours arbitrary: st)
  case Nil
  then show ?case by simp
next
  case (Cons hour hours)
  from Cons.prems(1) obtain st1 where
    s: "hour_step solar load cap tariff hour st = Inr st1"
       "heuristic_loop solar load cap tariff hours st1 = Inr st'"
    by (auto split: sum.splits)
  from hour_step_soc [OF s(1) assms Cons.prems(2,3)] Cons.IH [OF s(2)]
  show ?case by simp
qed


lemma hour_step_total:
  assumes "hour < length solar" "hour < length load" "hour < length tariff" "cap \<noteq> 0"
  shows "\<exists>st'. hour_step solar load cap tariff hour st = Inr st'"
proof -
  have "tariff \<noteq> []" using assms(3) by auto
  then show ?thesis
    using assms by (simp add: hour_step_def getitem_def truediv_def Let_def)
qed

lemma heuristic_loop_total:
  assumes "\<forall>hour \<in> set hours. hour < length solar \<and> hour < length load \<and> hour < length tariff"
    and "cap \<noteq> 0"
  shows "\<exists>st'. heuristic_loop solar load cap tariff hours st = Inr st'"
  using assms(1)
proof (induction hours arbitrary: st)
  case Nil
  show ?case by simp
next
  case (Cons hour hours)
  then obtain st1 where "hour_step solar load cap tariff hour st = Inr st1"
    using hour_step_total [of hour solar load tariff cap st] assms(2) by auto
  then show ?case using Cons by simp
qed

lemma heuristic_loop_append:
  "heuristic_loop solar load cap tariff (xs @ ys) st =
     (case heuristic_loop solar load cap tariff xs st of
        Inl e \<Rightarrow> Inl e
      | Inr st' \<Rightarrow> heuristic_loop solar load cap tariff ys st')"
  by (induction xs arbitrary: st) (simp_all split: sum.splits)

lemma hour_step_effect:
  assumes "hour_step solar load cap tariff hour st = Inr st'"
  shows "length (st_battery_schedule st') = Suc (length (st_battery_schedule st))"
    and "length (st_grid_schedule st') = Suc (length (st_grid_schedule st))"
    and "baseline_cost st' =
           baseline_cost st + max 0 (- (solar ! hour - load ! hour)) * tariff ! hour"
proof -
  from assms obtain solar_h load_h tariff_h where
    g: "getitem solar hour = Inr solar_h" "getitem load hour = Inr load_h"
       "getitem tariff hour = Inr tariff_h"
    by (auto simp: hour_step_def split: sum.splits)
  then have v: "solar_h = solar ! hour" "load_h = load ! hour" "tariff_h = tariff ! hour"
    by (auto simp: getitem_def split: if_splits)
  from assms show "length (st_battery_schedule st') = Suc (length (st_battery_schedule st))"
    by (auto simp: hour_step_def g Let_def truediv_def split: if_splits)
  from assms show "length (st_grid_schedule st') = Suc (length (st_grid_schedule st))"
    by (auto simp: hour_step_def g Let_def truediv_def split: if_splits)
  from assms have "baseline_cost st' = baseline_cost st + max 0 (- (solar_h - load_h)) * tariff_h"
    by (auto simp: hour_step_def g Let_def truediv_def split: if_splits)
  then show "baseline_cost st' =
           baseline_cost st + max 0 (- (solar ! hour - load ! hour)) * tariff ! hour"
    by (simp add: v)
qed

lemma heuristic_loop_effect:
  "heuristic_loop solar load cap tariff hours st = Inr st' \<Longrightarrow>
   length (st_battery_schedule st') = length (st_battery_schedule st) + length hours
   \<and> length (st_grid_schedule st') = length (st_grid_schedule st) + length hours
   \<and> baseline_cost st' =
       baseline_cost st +
       sum_list (map (\<lambda>h. max 0 (- (solar ! h - load ! h)) * tariff ! h) hours)"
proof (induction hours arbitrary: st)
  case Nil
  then show ?case by simp
next
  case (Cons hour hours)
  from Cons.prems obtain st1 where
    s: "hour_step solar load cap tariff hour st = Inr st1"
       "heuristic_loop solar load cap tariff hours st1 = Inr st'"
    by (auto split: sum.splits)
  from hour_step_effect [OF s(1)] Cons.IH [OF s(2)] show ?case by simp
qed

subsection \<open>C3: the simulated state of charge\<close>

text \<open>
  Claim C3 says that, for a positive capacity and an initial SOC between 0 and 100, the SOC
  carried forward by the loop of \<^verbatim>\<open>_solve_simple_heuristic\<close> stays between 0 and 100. The
  lemma below shows this of the algorithm in exact arithmetic, which is what \<open>hour_step\<close>
  computes with: after any number \<open>n\<close> of iterations the SOC is between 0 and 100, and the
  iterations do run when both forecasts and the tariff have \<open>n\<close> entries. It does not show
  it of the source, whose numbers are IEEE doubles: there the quotient
  \<^verbatim>\<open>charge_amount / battery_capacity\<close> is not bounded by \<^verbatim>\<open>(90 - soc) / 100\<close> once the
  products with a subnormal capacity are rounded, and a NaN in a forecast reaches the SOC
  through \<^verbatim>\<open>min\<close>. This theory has no model of IEEE arithmetic, so it holds no theorem for
  the claim.
\<close>

lemma soc_stays_in_range:
  assumes "0 < battery_capacity" and "0 \<le> initial_soc" and "initial_soc \<le> 100"
    and "n \<le> nat horizon"
  shows "(\<forall>st. heuristic_loop solar load battery_capacity tariff [0..<n]
              (heuristic_start initial_soc) = Inr st \<longrightarrow> 0 \<le> soc st \<and> soc st \<le> 100)
    \<and> heuristic_loop solar load battery_capacity tariff [0..<nat horizon]
          (heuristic_start initial_soc) =
        (case heuristic_loop solar load battery_capacity tariff [0..<n]
                (heuristic_start initial_soc) of
           Inl e \<Rightarrow> Inl e
         | Inr st \<Rightarrow> heuristic_loop solar load battery_capacity tariff [n..<nat horizon] st)
    \<and> (n \<le> length solar \<and> n \<le> length load \<and> n \<le> length tariff \<longrightarrow>
         (\<exists>st. heuristic_loop solar load battery_capacity tariff [0..<n]
                 (heuristic_start initial_soc) = Inr st))"
proof (intro conjI allI impI)
  fix st
  assume "heuristic_loop solar load battery_capacity tariff [0..<n]
            (heuristic_start initial_soc) = Inr st"
  from heuristic_loop_soc [OF assms(1) this] assms(2,3)
  show "0 \<le> soc st" and "soc st \<le> 100"
    by (simp_all add: heuristic_start_def)
next
  have "[0..<nat horizon] = [0..<n] @ [n..<nat horizon]"
    using assms(4) by (metis le0 upt_add_eq_append le_add_diff_inverse)
  then show "heuristic_loop solar load battery_capacity tariff [0..<nat horizon]
          (heuristic_start initial_soc) =
        (case heuristic_loop solar load battery_capacity tariff [0..<n]
                (heuristic_start initial_soc) of
           Inl e \<Rightarrow> Inl e
         | Inr st \<Rightarrow> heuristic_loop solar load battery_capacity tariff [n..<nat horizon] st)"
    by (simp only: heuristic_loop_append)
next
  assume "n \<le> length solar \<and> n \<le> length load \<and> n \<le> length tariff"
  then have "\<forall>hour \<in> set [0..<n].
      hour < length solar \<and> hour < length load \<and> hour < length tariff"
    by auto
  moreover have "battery_capacity \<noteq> 0" using assms(1) by simp
  ultimately show "\<exists>st. heuristic_loop solar load battery_capacity tariff [0..<n]
                 (heuristic_start initial_soc) = Inr st"
    by (rule heuristic_loop_total)
qed

text \<open>
  Two hours on a 100 kWh battery at 50 percent: a surplus hour that charges, then a deficit
  hour at a peak price that discharges.
\<close>

lemma soc_stays_in_range_example:
  "\<exists>st. heuristic_loop [10, 0] [5, 20] 100 [1, 5] [0..<2] (heuristic_start 50) = Inr st
     \<and> 0 \<le> soc st \<and> soc st \<le> 100"
  using soc_stays_in_range [of 100 50 2 2 "[10, 0]" "[5, 20]" "[1, 5]"]
  by auto

subsection \<open>C8: the savings percentage\<close>



subsection \<open>What the wrapper returns once the forecasts are padded\<close>

lemma solve_simple_heuristic_lengths:
  assumes "solve_simple_heuristic solar load battery_capacity initial_soc tariff horizon = Inr r"
  shows "length (battery_schedule r) = nat horizon \<and> length (grid_schedule r) = nat horizon
         \<and> success r"
proof -
  from assms obtain st where
    loop: "heuristic_loop solar load battery_capacity tariff [0..<nat horizon]
             (heuristic_start initial_soc) = Inr st"
    and r: "battery_schedule r = st_battery_schedule st" "grid_schedule r = st_grid_schedule st"
      "success r"
    by (auto simp: solve_simple_heuristic_def split: sum.splits)
  from heuristic_loop_effect [OF loop] show ?thesis
    by (simp add: r heuristic_start_def)
qed




lemma optimize_after_padding:
  assumes "pad_forecast solar_forecast horizon_hours = Inr solar"
    and "pad_forecast load_forecast horizon_hours = Inr load"
  shows "optimize_energy_schedule bridge solar_forecast load_forecast battery_capacity
           initial_soc grid_tariff horizon_hours start_time end_time =
         (case solve_simple_heuristic solar load battery_capacity initial_soc
                 (case grid_tariff of
                    None \<Rightarrow> generate_default_tariff horizon_hours | Some t \<Rightarrow> t)
                 horizon_hours of
            Inr result \<Rightarrow>
              Inr (result\<lparr>solve_time_ms := (end_time - start_time) * 1000, solver_used := SIMPLE\<rparr>,
                   bridge\<lparr>solve_count := solve_count bridge + 1,
                     total_solve_time :=
                       total_solve_time bridge + (end_time - start_time) * 1000\<rparr>)
          | Inl e \<Rightarrow>
              Inr (\<lparr>success = False, objective_value = 0,
                     battery_schedule = replicate (nat horizon_hours) 0,
                     grid_schedule = load,
                     solve_time_ms = (end_time - start_time) * 1000,
                     solver_used = SIMPLE, iterations = 0, cost_savings_pct = 0\<rparr>,
                   bridge\<lparr>failed_solves := failed_solves bridge + 1\<rparr>))"
  by (simp add: optimize_energy_schedule_def assms Let_def split: sum.splits)


subsection \<open>C7: the lengths of the schedules\<close>




lemma optimize_returns_after_padding:
  assumes "pad_forecast solar_forecast horizon_hours = Inr solar"
    and "pad_forecast load_forecast horizon_hours = Inr load"
  shows "\<exists>r bridge'.
      optimize_energy_schedule bridge solar_forecast load_forecast battery_capacity
        initial_soc grid_tariff horizon_hours start_time end_time = Inr (r, bridge')
      \<and> (success r
           \<or> battery_schedule r = replicate (nat horizon_hours) 0 \<and> grid_schedule r = load
             \<and> objective_value r = 0)"
proof (cases "solve_simple_heuristic solar load battery_capacity initial_soc
                (case grid_tariff of
                   None \<Rightarrow> generate_default_tariff horizon_hours | Some t \<Rightarrow> t)
                horizon_hours")
  case (Inl e)
  then show ?thesis
    by (simp add: optimize_after_padding [OF assms])
next
  case (Inr result)
  from solve_simple_heuristic_lengths [OF Inr] show ?thesis
    by (simp add: optimize_after_padding [OF assms] Inr)
qed

subsection \<open>C2: an exception that reaches the caller\<close>

text \<open>
  Claim C2 says that \<^verbatim>\<open>optimize_energy_schedule\<close> never propagates an exception, for any
  solar forecast. \<^verbatim>\<open>_pad_forecast\<close> is called before the \<^verbatim>\<open>try\<close>: for an empty solar
  forecast and horizon 1 it evaluates \<^verbatim>\<open>forecast[-1]\<close>, and the \<^verbatim>\<open>IndexError\<close> leaves
  \<^verbatim>\<open>optimize_energy_schedule\<close>, whatever the other arguments are. (Once both forecasts
  are padded the call does return, with the heuristic's result or with the fallback, as
  \<open>optimize_returns_after_padding\<close> shows.)
\<close>

theorem optimize_raises_on_empty_forecast:
  "optimize_energy_schedule bridge [] load_forecast battery_capacity initial_soc grid_tariff 1
     start_time end_time = Inl IndexError"
  by (simp add: optimize_energy_schedule_def pad_forecast_def)

subsection \<open>C9: the schedules do not depend on the clock or on the counters\<close>

text \<open>
  Claim C9. Two calls of \<^verbatim>\<open>optimize_energy_schedule\<close> with the same forecasts, capacity,
  initial SOC, tariff and horizon, on bridges in any two states and with any readings of the
  clock, either both raise the same exception or return results with the same
  \<^verbatim>\<open>battery_schedule\<close>, \<^verbatim>\<open>grid_schedule\<close> and \<^verbatim>\<open>objective_value\<close>; the two results differ
  in \<^verbatim>\<open>solve_time_ms\<close> at most.
\<close>

theorem optimize_deterministic:
  "map_sum id (\<lambda>(r, b). (battery_schedule r, grid_schedule r, objective_value r))
     (optimize_energy_schedule bridge1 solar_forecast load_forecast battery_capacity initial_soc
        grid_tariff horizon_hours start1 end1) =
   map_sum id (\<lambda>(r, b). (battery_schedule r, grid_schedule r, objective_value r))
     (optimize_energy_schedule bridge2 solar_forecast load_forecast battery_capacity initial_soc
        grid_tariff horizon_hours start2 end2)
   \<and> map_sum id (\<lambda>(r, b). r\<lparr>solve_time_ms := 0\<rparr>)
     (optimize_energy_schedule bridge1 solar_forecast load_forecast battery_capacity initial_soc
        grid_tariff horizon_hours start1 end1) =
   map_sum id (\<lambda>(r, b). r\<lparr>solve_time_ms := 0\<rparr>)
     (optimize_energy_schedule bridge2 solar_forecast load_forecast battery_capacity initial_soc
        grid_tariff horizon_hours start2 end2)"
  by (simp add: optimize_energy_schedule_def Let_def split: sum.splits)

text \<open>
  The six-hour run of a fresh bridge, compared with the same run on a bridge that has
  already solved three times, at another time of day.
\<close>

theorem optimize_deterministic_witness:
  "map_sum id (\<lambda>(r, b). (battery_schedule r, grid_schedule r, objective_value r))
     (optimize_energy_schedule
        \<lparr>preferred_solver = SIMPLE, solve_count = 3, total_solve_time = 7, failed_solves = 1\<rparr>
        [0, 0, 10, 50, 0, 0] [5, 5, 5, 5, 20, 20] 100 50 (Some [1, 1, 1, 1, 5, 5]) 6 100 103) =
   Inr ([0, 0, 5, 141 / 4, - 20, - 20], [5, 5, 0, 39 / 4, 0, 0], 10)"
proof -
  have "map_sum id (\<lambda>(r, b). (battery_schedule r, grid_schedule r, objective_value r))
     (optimize_energy_schedule (SolverBridge_init SIMPLE)
        [0, 0, 10, 50, 0, 0] [5, 5, 5, 5, 20, 20] 100 50 (Some [1, 1, 1, 1, 5, 5]) 6 0 1) =
   Inr ([0, 0, 5, 141 / 4, - 20, - 20], [5, 5, 0, 39 / 4, 0, 0], 10)"
    by code_simp
  then show ?thesis
    using optimize_deterministic [of
        "\<lparr>preferred_solver = SIMPLE, solve_count = 3, total_solve_time = 7, failed_solves = 1\<rparr>"
        "[0, 0, 10, 50, 0, 0]" "[5, 5, 5, 5, 20, 20]" 100 50 "Some [1, 1, 1, 1, 5, 5]" 6 100 103
        "SolverBridge_init SIMPLE" 0 1]
    by simp
qed

end
